theory Spec2Isabelle
  imports Main
begin

section \<open>Data model\<close>

text \<open>
  The attribute keys are the closed string-literal union
  \<^verbatim>\<open>typeof ATTRIBUTE_KEYS[number]\<close>; it is a datatype with one constructor per literal.
  A \<^verbatim>\<open>number\<close> is an integer here: the data model speaks of records of integers, and no
  operation of the library divides or produces a fraction.
\<close>

datatype AttributeKey = Vitality | Strength | Agility | Intellect | Luck

definition ATTRIBUTE_KEYS :: "AttributeKey list" where
  "ATTRIBUTE_KEYS = [Vitality, Strength, Agility, Intellect, Luck]"

record AttributeMeta =
  displayName :: string
  description :: string
  icon :: string
  tooltip :: "string option"

record AttributeValues =
  baseValue :: int
  equipmentBonus :: int
  effectBonus :: int

text \<open>
  \<^verbatim>\<open>Partial<AttributeValues>\<close>: every field may be absent. The target of the compiler is
  Lua, where an absent field and a field holding \<^verbatim>\<open>nil\<close> are the same thing.
\<close>

record PartialAttributeValues =
  baseValue_opt :: "int option"
  equipmentBonus_opt :: "int option"
  effectBonus_opt :: "int option"

record AttributeStateEntry =
  meta :: AttributeMeta
  "values" :: AttributeValues
  totalValue :: int

type_synonym AttributesState = "AttributeKey \<rightharpoonup> AttributeStateEntry"

text \<open>
  The object spread \<^verbatim>\<open>{ ...defaults, ...overrides }\<close> on value records: a field of the
  overrides wins when it is present. An absent overrides argument spreads nothing.
\<close>

definition spread_values :: "AttributeValues \<Rightarrow> PartialAttributeValues option \<Rightarrow> AttributeValues" where
  "spread_values d overrides =
     (case overrides of
        None \<Rightarrow> d
      | Some p \<Rightarrow>
          \<lparr> baseValue = (case baseValue_opt p of None \<Rightarrow> baseValue d | Some x \<Rightarrow> x),
            equipmentBonus = (case equipmentBonus_opt p of None \<Rightarrow> equipmentBonus d | Some x \<Rightarrow> x),
            effectBonus = (case effectBonus_opt p of None \<Rightarrow> effectBonus d | Some x \<Rightarrow> x) \<rparr>)"

text \<open>Optional chaining \<^verbatim>\<open>overrides?.[key]\<close>.\<close>

definition override_at ::
  "(AttributeKey \<rightharpoonup> PartialAttributeValues) option \<Rightarrow> AttributeKey \<Rightarrow> PartialAttributeValues option" where
  "override_at overrides key = (case overrides of None \<Rightarrow> None | Some ov \<Rightarrow> ov key)"


section \<open>shared/attribute-constants.ts and shared/attribute-catalog.ts\<close>

definition AttributeIconMap :: "AttributeKey \<Rightarrow> string" where
  "AttributeIconMap key =
     (case key of
        Vitality \<Rightarrow> ''rbxassetid://121291227474039''
      | Strength \<Rightarrow> ''rbxassetid://127745571044516''
      | Agility \<Rightarrow> ''rbxassetid://73893872719367''
      | Intellect \<Rightarrow> ''rbxassetid://107600003376684''
      | Luck \<Rightarrow> ''rbxassetid://114767496083209'')"

definition DefaultAttributeValues :: AttributeValues where
  "DefaultAttributeValues = \<lparr> baseValue = 10, equipmentBonus = 2, effectBonus = 2 \<rparr>"

definition AttributeCatalog :: "AttributeKey \<Rightarrow> AttributeMeta" where
  "AttributeCatalog key =
     (case key of
        Vitality \<Rightarrow>
          \<lparr> displayName = ''Vitality'',
            description = ''Increases maximum health points.'',
            icon = AttributeIconMap Vitality,
            tooltip = Some ''Each point of Vitality increases your maximum HP, making you more resilient in combat.'' \<rparr>
      | Strength \<Rightarrow>
          \<lparr> displayName = ''Strength'',
            description = ''Increases physical damage dealt.'',
            icon = AttributeIconMap Strength,
            tooltip = Some ''Higher Strength enhances your melee and physical weapon damage output.'' \<rparr>
      | Agility \<Rightarrow>
          \<lparr> displayName = ''Agility'',
            description = ''Increases accuracy and evasion.'',
            icon = AttributeIconMap Agility,
            tooltip = Some ''Agility improves your hit chance, dodge rate, and movement speed in combat.'' \<rparr>
      | Intellect \<Rightarrow>
          \<lparr> displayName = ''Intellect'',
            description = ''Increases magic damage dealt.'',
            icon = AttributeIconMap Intellect,
            tooltip = Some ''Intellect boosts your magical damage and may increase mana pool or spell effectiveness.'' \<rparr>
      | Luck \<Rightarrow>
          \<lparr> displayName = ''Luck'',
            description = ''Increases chance for critical hits.'',
            icon = AttributeIconMap Luck,
            tooltip = Some ''Luck influences critical hit chance, rare item drops, and other random events.'' \<rparr>)"


section \<open>shared/attribute-utilities.ts\<close>

definition calculateTotalAttributeValue :: "AttributeValues \<Rightarrow> int" where
  "calculateTotalAttributeValue v = baseValue v + equipmentBonus v + effectBonus v"

definition createAttributeValues :: "PartialAttributeValues option \<Rightarrow> AttributeValues" where
  "createAttributeValues overrides = spread_values DefaultAttributeValues overrides"

definition createAttributeEntry :: "AttributeKey \<Rightarrow> PartialAttributeValues option \<Rightarrow> AttributeStateEntry" where
  "createAttributeEntry key vals =
     (let attributeValues = createAttributeValues vals
      in \<lparr> meta = AttributeCatalog key,
           values = attributeValues,
           totalValue = calculateTotalAttributeValue attributeValues \<rparr>)"

text \<open>
  The state starts as the empty object and the loop assigns one entry per key of the
  local key array, in that order.
\<close>

definition createAttributesState ::
  "(AttributeKey \<rightharpoonup> PartialAttributeValues) option \<Rightarrow> AttributesState" where
  "createAttributesState overrides =
     (let attributeKeys = [Vitality, Strength, Agility, Intellect, Luck]
      in fold (\<lambda>key state. state(key \<mapsto> createAttributeEntry key (override_at overrides key)))
           attributeKeys Map.empty)"

text \<open>
  \<^verbatim>\<open>clampAttributeValue(value, min = 0, max = 999)\<close>: an omitted bound takes its default.
\<close>

definition clampAttributeValue :: "int \<Rightarrow> int option \<Rightarrow> int option \<Rightarrow> int" where
  "clampAttributeValue v min_arg max_arg =
     (let lo = (case min_arg of None \<Rightarrow> 0 | Some b \<Rightarrow> b);
          hi = (case max_arg of None \<Rightarrow> 999 | Some b \<Rightarrow> b)
      in max lo (min hi v))"


section \<open>compact-core.ts: catalog and utility functions\<close>

definition CompactAttributeCatalog :: "AttributeKey \<Rightarrow> AttributeMeta" where
  "CompactAttributeCatalog key =
     (case key of
        Vitality \<Rightarrow>
          \<lparr> displayName = ''Vitality'',
            description = ''Increases maximum health points.'',
            icon = ''rbxassetid://121291227474039'',
            tooltip = Some ''Higher vitality means more health and survivability'' \<rparr>
      | Strength \<Rightarrow>
          \<lparr> displayName = ''Strength'',
            description = ''Increases physical damage output.'',
            icon = ''rbxassetid://127745571044516'',
            tooltip = Some ''Higher strength means more damage with melee weapons'' \<rparr>
      | Agility \<Rightarrow>
          \<lparr> displayName = ''Agility'',
            description = ''Increases movement speed and dodge chance.'',
            icon = ''rbxassetid://73893872719367'',
            tooltip = Some ''Higher agility means faster movement and better evasion'' \<rparr>
      | Intellect \<Rightarrow>
          \<lparr> displayName = ''Intellect'',
            description = ''Increases mana pool and spell damage.'',
            icon = ''rbxassetid://107600003376684'',
            tooltip = Some ''Higher intellect means more mana and stronger spells'' \<rparr>
      | Luck \<Rightarrow>
          \<lparr> displayName = ''Luck'',
            description = ''Increases critical hit chance and rare item drops.'',
            icon = ''rbxassetid://134567890123456'',
            tooltip = Some ''Higher luck means better chances for critical hits and rare loot'' \<rparr>)"

definition calculateTotal :: "AttributeValues \<Rightarrow> int" where
  "calculateTotal v = baseValue v + equipmentBonus v + effectBonus v"

definition createValues :: "PartialAttributeValues option \<Rightarrow> AttributeValues" where
  "createValues overrides =
     spread_values \<lparr> baseValue = 0, equipmentBonus = 0, effectBonus = 0 \<rparr> overrides"

text \<open>
  The compact module declares \<^verbatim>\<open>meta\<close> optional in its state type; \<^verbatim>\<open>createState\<close> always
  stores the catalog record there, so the entry type with a present \<^verbatim>\<open>meta\<close> is used.
\<close>

definition createState ::
  "(AttributeKey \<rightharpoonup> PartialAttributeValues) option \<Rightarrow> AttributesState" where
  "createState overrides =
     fold (\<lambda>key state.
             let vals = createValues (override_at overrides key)
             in state(key \<mapsto> \<lparr> meta = CompactAttributeCatalog key,
                                values = vals,
                                totalValue = calculateTotal vals \<rparr>))
       ATTRIBUTE_KEYS Map.empty"

text \<open>\<^verbatim>\<open>clamp(value, min = 0, max = 9999)\<close>.\<close>

definition clamp :: "int \<Rightarrow> int option \<Rightarrow> int option \<Rightarrow> int" where
  "clamp v min_arg max_arg =
     (let lo = (case min_arg of None \<Rightarrow> 0 | Some b \<Rightarrow> b);
          hi = (case max_arg of None \<Rightarrow> 9999 | Some b \<Rightarrow> b)
      in max lo (min hi v))"


section \<open>shared/attribute-utilities.ts: updating an entry\<close>

text \<open>
  Whether \<^verbatim>\<open>updateAttributeEntry\<close> writes to the state it is given is a question about
  objects, so this function is modelled over a store. A store is the list of the objects
  allocated so far, and the address of an object is its index. A state object maps keys
  to the addresses of entry objects; an entry object holds its catalog record, the
  address of its values object and its total. An object literal allocates; nothing in
  the function assigns to a field of an existing object.
\<close>

datatype obj =
    ValuesObj AttributeValues
  | EntryObj AttributeMeta nat int
  | StateObj "AttributeKey \<rightharpoonup> nat"

type_synonym store = "obj list"

definition deref :: "store \<Rightarrow> nat \<Rightarrow> obj option" where
  "deref s a = (if a < length s then Some (s ! a) else None)"

definition alloc :: "store \<Rightarrow> obj \<Rightarrow> store \<times> nat" where
  "alloc s ob = (s @ [ob], length s)"

text \<open>The entry object at an address, read by value.\<close>

definition read_entry :: "store \<Rightarrow> nat \<Rightarrow> AttributeStateEntry option" where
  "read_entry s ea =
     (case deref s ea of
        Some (EntryObj mt va tv) \<Rightarrow>
          (case deref s va of
             Some (ValuesObj vs) \<Rightarrow> Some \<lparr> meta = mt, values = vs, totalValue = tv \<rparr>
           | _ \<Rightarrow> None)
      | _ \<Rightarrow> None)"

text \<open>
  \<^verbatim>\<open>currentState[key]\<close>, read by value. Indexing a missing entry is a run-time error,
  which is the result \<open>None\<close>.
\<close>

definition read_state_entry :: "store \<Rightarrow> nat \<Rightarrow> AttributeKey \<Rightarrow> AttributeStateEntry option" where
  "read_state_entry s currentState key =
     (case deref s currentState of
        Some (StateObj tbl) \<Rightarrow> (case tbl key of None \<Rightarrow> None | Some ea \<Rightarrow> read_entry s ea)
      | _ \<Rightarrow> None)"

text \<open>
  The first literal spreads the old values and then the new ones; the second spreads the
  old entry (keeping \<^verbatim>\<open>meta\<close>) and sets \<^verbatim>\<open>values\<close> and \<^verbatim>\<open>totalValue\<close>. The function returns
  the new store and the address of the new entry.
\<close>

definition updateAttributeEntry ::
  "store \<Rightarrow> nat \<Rightarrow> AttributeKey \<Rightarrow> PartialAttributeValues \<Rightarrow> (store \<times> nat) option" where
  "updateAttributeEntry s currentState key newValues =
     (case read_state_entry s currentState key of
        None \<Rightarrow> None
      | Some e \<Rightarrow>
          (let updatedValues = spread_values (values e) (Some newValues);
               (s1, va) = alloc s (ValuesObj updatedValues);
               (s2, ea) = alloc s1 (EntryObj (meta e) va (calculateTotalAttributeValue updatedValues))
           in Some (s2, ea)))"


section \<open>compact-core.ts: the reactive manager\<close>

text \<open>The constructor's argument: every field is optional.\<close>

record AttributeManagerConfig =
  initialValues_opt :: "(AttributeKey \<rightharpoonup> int) option"
  autoPersist_opt :: "bool option"
  maxValue_opt :: "int option"
  minValue_opt :: "int option"

text \<open>\<^verbatim>\<open>Required<AttributeManagerConfig>\<close>, the type of \<^verbatim>\<open>this.config\<close>.\<close>

record RequiredAttributeManagerConfig =
  initialValues :: "AttributeKey \<rightharpoonup> int"
  autoPersist :: bool
  maxValue :: int
  minValue :: int

text \<open>The defaults, overwritten by the fields the argument has.\<close>

definition merge_config :: "AttributeManagerConfig \<Rightarrow> RequiredAttributeManagerConfig" where
  "merge_config c =
     \<lparr> initialValues = (case initialValues_opt c of None \<Rightarrow> Map.empty | Some iv \<Rightarrow> iv),
       autoPersist = (case autoPersist_opt c of None \<Rightarrow> False | Some b \<Rightarrow> b),
       maxValue = (case maxValue_opt c of None \<Rightarrow> 9999 | Some b \<Rightarrow> b),
       minValue = (case minValue_opt c of None \<Rightarrow> 0 | Some b \<Rightarrow> b) \<rparr>"

text \<open>
  The two notification hooks of a subclass are abstract. A call of one of them is
  recorded, with its arguments, at the end of the manager's list of calls; the hooks are
  taken not to call back into the manager.
\<close>

datatype HookCall = onAttributeChanged AttributeKey int int | persistState

text \<open>
  The manager. \<open>states\<close> holds the contents of the three value cells of each key (the
  loop of \<^verbatim>\<open>initializeStates\<close> runs over every key of the type, so each key has its cells).
  \<open>listeners\<close> is the part of the reactive graph that the manager builds: a key is in
  its domain when a change listener is connected to the observer of that key's total,
  and it is mapped to the current value of the variable \<^verbatim>\<open>prev\<close> that the listener closes
  over. \<open>observers\<close> is the array \<^verbatim>\<open>this.observers\<close>, each observer named by its key.
\<close>

record AttributeManager =
  config :: RequiredAttributeManagerConfig
  states :: "AttributeKey \<Rightarrow> AttributeValues"
  listeners :: "AttributeKey \<rightharpoonup> int"
  observers :: "AttributeKey list"
  calls :: "HookCall list"

definition initializeStates :: "RequiredAttributeManagerConfig \<Rightarrow> AttributeKey \<Rightarrow> AttributeValues" where
  "initializeStates c key =
     (let initial = (case initialValues c key of None \<Rightarrow> 0 | Some v \<Rightarrow> v)
      in \<lparr> baseValue = initial, equipmentBonus = 0, effectBonus = 0 \<rparr>)"

text \<open>
  Modelled from the spec: the reactive library (its \<^verbatim>\<open>Value\<close>, \<^verbatim>\<open>Computed\<close> and \<^verbatim>\<open>Observer\<close>)
  is imported by the source and is not part of it. A derived cell always holds the value
  of its function on the current value cells; here the function is the one the source
  passes to \<^verbatim>\<open>Computed\<close>, the clamped sum. This is also \<^verbatim>\<open>getValue(key)\<close>.
\<close>

definition getValue :: "AttributeManager \<Rightarrow> AttributeKey \<Rightarrow> int" where
  "getValue m key =
     (let total = baseValue (states m key) + equipmentBonus (states m key) + effectBonus (states m key)
      in clamp total (Some (minValue (config m))) (Some (maxValue (config m))))"

text \<open>
  The body of the listener that \<^verbatim>\<open>setupObservers\<close> connects for a key, run with the
  current value \<open>prev\<close> of its closure variable.
\<close>

definition onChange_listener :: "AttributeManager \<Rightarrow> AttributeKey \<Rightarrow> int \<Rightarrow> AttributeManager" where
  "onChange_listener m key prev =
     (let curr = getValue m key;
          m1 = m\<lparr> calls := calls m @ [onAttributeChanged key prev curr] \<rparr>;
          m2 = m1\<lparr> listeners := (listeners m1)(key \<mapsto> curr) \<rparr>
      in if autoPersist (config m2) then m2\<lparr> calls := calls m2 @ [persistState] \<rparr> else m2)"

text \<open>
  Modelled from the spec: a write to a value cell of a key stores the new contents and
  recomputes the key's derived total at once; when the recomputation yields a value
  different from the one before the write, the listener connected to the total's
  observer runs, synchronously, before the write returns. \<open>vs\<close> is the contents of the
  key's three cells after the write.
\<close>

definition set_cells :: "AttributeManager \<Rightarrow> AttributeKey \<Rightarrow> AttributeValues \<Rightarrow> AttributeManager" where
  "set_cells m key vs =
     (let before = getValue m key;
          m1 = m\<lparr> states := (states m)(key := vs) \<rparr>
      in if getValue m1 key = before then m1
         else (case listeners m1 key of
                 None \<Rightarrow> m1
               | Some prev \<Rightarrow> onChange_listener m1 key prev))"

text \<open>
  For each key: an observer of the total is created, \<^verbatim>\<open>prev\<close> starts as the current total,
  the listener is connected, and the observer is pushed on \<^verbatim>\<open>this.observers\<close>. The value
  that \<^verbatim>\<open>onChange\<close> returns, the function that disconnects the listener, is dropped.
\<close>

definition setupObservers :: "AttributeManager \<Rightarrow> AttributeManager" where
  "setupObservers m =
     fold (\<lambda>key m. m\<lparr> listeners := (listeners m)(key \<mapsto> getValue m key),
                       observers := observers m @ [key] \<rparr>)
       ATTRIBUTE_KEYS m"

definition new_AttributeManager :: "AttributeManagerConfig \<Rightarrow> AttributeManager" where
  "new_AttributeManager c =
     (let cfg = merge_config c
      in setupObservers
           \<lparr> config = cfg, states = initializeStates cfg,
             listeners = Map.empty, observers = [], calls = [] \<rparr>)"

text \<open>
  The setters take the subclass's \<^verbatim>\<open>validate\<close> hook as their first argument; the hook may
  read the manager. They return the boolean result and the manager after the call.
\<close>

type_synonym validate_hook = "AttributeManager \<Rightarrow> AttributeKey \<Rightarrow> int \<Rightarrow> bool"

definition setBase :: "validate_hook \<Rightarrow> AttributeManager \<Rightarrow> AttributeKey \<Rightarrow> int \<Rightarrow> bool \<times> AttributeManager" where
  "setBase validate m key v =
     (if \<not> validate m key v then (False, m)
      else (True, set_cells m key
              ((states m key)\<lparr> baseValue :=
                 clamp v (Some (minValue (config m))) (Some (maxValue (config m))) \<rparr>)))"

definition setEquipment :: "validate_hook \<Rightarrow> AttributeManager \<Rightarrow> AttributeKey \<Rightarrow> int \<Rightarrow> bool \<times> AttributeManager" where
  "setEquipment validate m key v =
     (if \<not> validate m key v then (False, m)
      else (True, set_cells m key ((states m key)\<lparr> equipmentBonus := v \<rparr>)))"

definition setEffect :: "validate_hook \<Rightarrow> AttributeManager \<Rightarrow> AttributeKey \<Rightarrow> int \<Rightarrow> bool \<times> AttributeManager" where
  "setEffect validate m key v =
     (if \<not> validate m key v then (False, m)
      else (True, set_cells m key ((states m key)\<lparr> effectBonus := v \<rparr>)))"

definition exportData :: "AttributeManager \<Rightarrow> (AttributeKey \<rightharpoonup> AttributeValues)" where
  "exportData m =
     fold (\<lambda>key data. data(key \<mapsto>
             \<lparr> baseValue = baseValue (states m key),
               equipmentBonus = equipmentBonus (states m key),
               effectBonus = effectBonus (states m key) \<rparr>))
       ATTRIBUTE_KEYS Map.empty"

text \<open>
  The three setter calls that \<^verbatim>\<open>loadData\<close> makes for one provided key; their boolean
  results are dropped. The fields of the argument are typed as numbers, so the
  \<^verbatim>\<open>?? 0\<close> defaults never apply.
\<close>

definition load_key :: "validate_hook \<Rightarrow> AttributeManager \<Rightarrow> AttributeKey \<Rightarrow> AttributeValues \<Rightarrow> AttributeManager" where
  "load_key validate m k vals =
     (let m1 = snd (setBase validate m k (baseValue vals));
          m2 = snd (setEquipment validate m1 k (equipmentBonus vals));
          m3 = snd (setEffect validate m2 k (effectBonus vals))
      in m3)"

text \<open>
  The loop visits the keys that the argument has. The order of \<^verbatim>\<open>pairs\<close> over string keys
  is not specified by the language; the order of \<open>ATTRIBUTE_KEYS\<close> is taken.
\<close>

definition loadData :: "validate_hook \<Rightarrow> AttributeManager \<Rightarrow> (AttributeKey \<rightharpoonup> AttributeValues) \<Rightarrow> AttributeManager" where
  "loadData validate m data =
     fold (\<lambda>key m. case data key of None \<Rightarrow> m | Some vals \<Rightarrow> load_key validate m key vals)
       ATTRIBUTE_KEYS m"

text \<open>
  The \<^verbatim>\<open>forEach\<close> has an empty body and \<^verbatim>\<open>clear\<close> empties the array; no listener is
  disconnected.
\<close>

definition destroy :: "AttributeManager \<Rightarrow> AttributeManager" where
  "destroy m = m\<lparr> observers := [] \<rparr>"

text \<open>\<^verbatim>\<open>SimpleAttributeManager.validate\<close>.\<close>

definition SimpleAttributeManager_validate :: validate_hook where
  "SimpleAttributeManager_validate m key v \<longleftrightarrow> minValue (config m) \<le> v \<and> v \<le> maxValue (config m)"


section \<open>Inputs of the scenarios\<close>

text \<open>
  The \<^verbatim>\<open>validate\<close> hook of the README's custom implementation (class \<^verbatim>\<open>MyAttributes\<close>):
  \<^verbatim>\<open>value >= 0 && value <= 100\<close>.
\<close>

definition MyAttributes_validate :: validate_hook where
  "MyAttributes_validate m key v \<longleftrightarrow> v \<ge> 0 \<and> v \<le> 100"

text \<open>
  A \<^verbatim>\<open>validate\<close> hook that always returns false.
\<close>

definition reject_all :: validate_hook where
  "reject_all m key v \<longleftrightarrow> False"

text \<open>
  The constructor called without an argument, and the configurations of the scenarios.
\<close>

definition default_config :: AttributeManagerConfig where
  "default_config = \<lparr> initialValues_opt = None, autoPersist_opt = None, maxValue_opt = None, minValue_opt = None \<rparr>"

definition scenario_config :: AttributeManagerConfig where
  "scenario_config = \<lparr> initialValues_opt = Some [Vitality \<mapsto> 10], autoPersist_opt = None,
                        maxValue_opt = Some 100, minValue_opt = Some 0 \<rparr>"

definition capped_config :: AttributeManagerConfig where
  "capped_config = \<lparr> initialValues_opt = Some [Vitality \<mapsto> 100], autoPersist_opt = None,
                        maxValue_opt = Some 100, minValue_opt = Some 0 \<rparr>"

definition over_max_config :: AttributeManagerConfig where
  "over_max_config = \<lparr> initialValues_opt = Some [Vitality \<mapsto> 80], autoPersist_opt = None,
                        maxValue_opt = Some 50, minValue_opt = None \<rparr>"

definition inverted_config :: AttributeManagerConfig where
  "inverted_config = \<lparr> initialValues_opt = None, autoPersist_opt = None,
                        maxValue_opt = Some 5, minValue_opt = Some 10 \<rparr>"

definition persisting_config :: AttributeManagerConfig where
  "persisting_config = \<lparr> initialValues_opt = None, autoPersist_opt = Some True,
                        maxValue_opt = None, minValue_opt = None \<rparr>"

text \<open>
  An argument of \<^verbatim>\<open>loadData\<close> with two of the five keys.
\<close>

definition example_data :: "AttributeKey \<rightharpoonup> AttributeValues" where
  "example_data = [Vitality \<mapsto> \<lparr> baseValue = 50, equipmentBonus = 500, effectBonus = 7 \<rparr>,
                   Strength \<mapsto> \<lparr> baseValue = 200, equipmentBonus = 3, effectBonus = 4 \<rparr>]"

text \<open>
  The overrides of the third usage example, and the state \<^verbatim>\<open>createAttributesState()\<close> laid
  out in a store: the values and entry objects of the five keys at addresses 0 to 9, the
  state object at address 10.
\<close>

definition example_overrides :: "AttributeKey \<rightharpoonup> PartialAttributeValues" where
  "example_overrides =
     [Vitality \<mapsto> \<lparr> baseValue_opt = Some 20, equipmentBonus_opt = None, effectBonus_opt = None \<rparr>,
      Strength \<mapsto> \<lparr> baseValue_opt = Some 15, equipmentBonus_opt = Some 5, effectBonus_opt = None \<rparr>,
      Luck \<mapsto> \<lparr> baseValue_opt = Some 8, equipmentBonus_opt = None, effectBonus_opt = Some 3 \<rparr>]"

definition example_store :: store where
  "example_store =
     [ValuesObj DefaultAttributeValues, EntryObj (AttributeCatalog Vitality) 0 14,
      ValuesObj DefaultAttributeValues, EntryObj (AttributeCatalog Strength) 2 14,
      ValuesObj DefaultAttributeValues, EntryObj (AttributeCatalog Agility) 4 14,
      ValuesObj DefaultAttributeValues, EntryObj (AttributeCatalog Intellect) 6 14,
      ValuesObj DefaultAttributeValues, EntryObj (AttributeCatalog Luck) 8 14,
      StateObj [Vitality \<mapsto> 1, Strength \<mapsto> 3, Agility \<mapsto> 5, Intellect \<mapsto> 7, Luck \<mapsto> 9]]"


section \<open>Facts about the manager\<close>

lemma set_cells_states: "states (set_cells m key vs) = (states m)(key := vs)"
  by (simp add: set_cells_def onChange_listener_def Let_def split: option.splits)

lemma set_cells_config: "config (set_cells m key vs) = config m"
  by (simp add: set_cells_def onChange_listener_def Let_def split: option.splits)

lemma getValue_cong: "config m' = config m \<Longrightarrow> states m' key = states m key \<Longrightarrow> getValue m' key = getValue m key"
  by (simp add: getValue_def)

lemma set_cells_calls:
  "calls (set_cells m key vs) =
     (if getValue (m\<lparr> states := (states m)(key := vs) \<rparr>) key = getValue m key then calls m
      else (case listeners m key of
              None \<Rightarrow> calls m
            | Some prev \<Rightarrow>
                calls m @ [onAttributeChanged key prev (getValue (m\<lparr> states := (states m)(key := vs) \<rparr>) key)]
                  @ (if autoPersist (config m) then [persistState] else [])))"
  by (simp add: set_cells_def onChange_listener_def Let_def getValue_def split: option.splits)

lemma set_cells_same: "set_cells m key (states m key) = m"
  by (simp add: set_cells_def Let_def)

lemma fold_keys_listeners:
  "listeners (fold (\<lambda>key m. m\<lparr> listeners := (listeners m)(key \<mapsto> getValue m key),
                       observers := observers m @ [key] \<rparr>) ks m) k
   = (if k \<in> set ks then Some (getValue m k) else listeners m k)"
  by (induction ks arbitrary: m) (auto simp: getValue_def)

lemma fold_keys_other:
  "config (fold (\<lambda>key m. m\<lparr> listeners := (listeners m)(key \<mapsto> getValue m key),
                       observers := observers m @ [key] \<rparr>) ks m) = config m
  \<and> states (fold (\<lambda>key m. m\<lparr> listeners := (listeners m)(key \<mapsto> getValue m key),
                       observers := observers m @ [key] \<rparr>) ks m) = states m
  \<and> calls (fold (\<lambda>key m. m\<lparr> listeners := (listeners m)(key \<mapsto> getValue m key),
                       observers := observers m @ [key] \<rparr>) ks m) = calls m
  \<and> observers (fold (\<lambda>key m. m\<lparr> listeners := (listeners m)(key \<mapsto> getValue m key),
                       observers := observers m @ [key] \<rparr>) ks m) = observers m @ ks"
  by (induction ks arbitrary: m) auto

lemma all_keys: "k \<in> set ATTRIBUTE_KEYS"
  by (cases k) (simp_all add: ATTRIBUTE_KEYS_def)

lemma new_config: "config (new_AttributeManager c) = merge_config c"
  by (simp add: new_AttributeManager_def setupObservers_def Let_def fold_keys_other)

lemma new_states: "states (new_AttributeManager c) = initializeStates (merge_config c)"
  by (simp add: new_AttributeManager_def setupObservers_def Let_def fold_keys_other)

lemma new_calls: "calls (new_AttributeManager c) = []"
  by (simp add: new_AttributeManager_def setupObservers_def Let_def fold_keys_other)

lemma new_listeners: "listeners (new_AttributeManager c) k = Some (getValue (new_AttributeManager c) k)"
proof -
  let ?m0 = "\<lparr> config = merge_config c, states = initializeStates (merge_config c),
               listeners = Map.empty, observers = [], calls = [] \<rparr>"
  have "listeners (new_AttributeManager c) k = Some (getValue ?m0 k)"
    by (simp add: new_AttributeManager_def setupObservers_def Let_def fold_keys_listeners all_keys)
  moreover have "getValue (new_AttributeManager c) k = getValue ?m0 k"
    by (rule getValue_cong) (simp_all add: new_config new_states)
  ultimately show ?thesis by simp
qed

lemma setter_states:
  "states (snd (setBase validate m key v)) =
     (if validate m key v
      then (states m)(key := (states m key)\<lparr> baseValue := clamp v (Some (minValue (config m))) (Some (maxValue (config m))) \<rparr>)
      else states m)"
  "states (snd (setEquipment validate m key v)) =
     (if validate m key v then (states m)(key := (states m key)\<lparr> equipmentBonus := v \<rparr>) else states m)"
  "states (snd (setEffect validate m key v)) =
     (if validate m key v then (states m)(key := (states m key)\<lparr> effectBonus := v \<rparr>) else states m)"
  by (simp_all add: setBase_def setEquipment_def setEffect_def set_cells_states)

lemma setter_config:
  "config (snd (setBase validate m key v)) = config m"
  "config (snd (setEquipment validate m key v)) = config m"
  "config (snd (setEffect validate m key v)) = config m"
  by (simp_all add: setBase_def setEquipment_def setEffect_def set_cells_config)

lemma set_cells_quiet:
  "getValue (set_cells m key vs) key = getValue m key \<Longrightarrow> calls (set_cells m key vs) = calls m"
proof -
  assume a: "getValue (set_cells m key vs) key = getValue m key"
  have "getValue (set_cells m key vs) key = getValue (m\<lparr> states := (states m)(key := vs) \<rparr>) key"
    by (rule getValue_cong) (simp_all add: set_cells_config set_cells_states)
  with a show ?thesis by (simp add: set_cells_calls)
qed

lemma capped_facts:
  "minValue (config (new_AttributeManager capped_config)) = 0"
  "maxValue (config (new_AttributeManager capped_config)) = 100"
  "states (new_AttributeManager capped_config) Vitality = \<lparr> baseValue = 100, equipmentBonus = 0, effectBonus = 0 \<rparr>"
  by (simp_all add: new_config new_states initializeStates_def merge_config_def capped_config_def)

lemma destroy_fields:
  "config (destroy m) = config m" "states (destroy m) = states m"
  "listeners (destroy m) = listeners m" "calls (destroy m) = calls m" "observers (destroy m) = []"
  by (simp_all add: destroy_def)

lemma getValue_destroy: "getValue (destroy m) key = getValue m key"
  by (simp add: getValue_def destroy_fields)

lemma exportData_at: "exportData m key = Some (states m key)"
  by (cases key) (simp_all add: exportData_def ATTRIBUTE_KEYS_def)

lemma load_key_config: "config (load_key validate m k vals) = config m"
  by (simp add: load_key_def Let_def setter_config)

lemma load_key_states:
  assumes "\<And>s s'. config s' = config s \<Longrightarrow> validate s' = validate s"
  shows "states (load_key validate m k vals) =
     (states m)(k :=
        \<lparr> baseValue = (if validate m k (baseValue vals)
                       then clamp (baseValue vals) (Some (minValue (config m))) (Some (maxValue (config m)))
                       else baseValue (states m k)),
          equipmentBonus = (if validate m k (equipmentBonus vals) then equipmentBonus vals
                            else equipmentBonus (states m k)),
          effectBonus = (if validate m k (effectBonus vals) then effectBonus vals
                         else effectBonus (states m k)) \<rparr>)"
proof -
  let ?m1 = "snd (setBase validate m k (baseValue vals))"
  let ?m2 = "snd (setEquipment validate ?m1 k (equipmentBonus vals))"
  have v1: "validate ?m1 = validate m" by (rule assms) (simp add: setter_config)
  have v2: "validate ?m2 = validate m" by (rule assms) (simp add: setter_config)
  show ?thesis
    by (simp add: load_key_def Let_def setter_states v1 v2 fun_eq_iff)
qed

lemma loadData_fold_states:
  assumes inv: "\<And>s s'. config s' = config s \<Longrightarrow> validate s' = validate s"
    and H: "H = (\<lambda>k old. case data k of None \<Rightarrow> old
               | Some vals \<Rightarrow>
          \<lparr> baseValue = (if validate m k (baseValue vals)
                         then clamp (baseValue vals) (Some (minValue (config m))) (Some (maxValue (config m)))
                         else baseValue old),
            equipmentBonus = (if validate m k (equipmentBonus vals) then equipmentBonus vals
                              else equipmentBonus old),
            effectBonus = (if validate m k (effectBonus vals) then effectBonus vals
                           else effectBonus old) \<rparr>)"
    and step: "step = (\<lambda>key m. case data key of None \<Rightarrow> m | Some vals \<Rightarrow> load_key validate m key vals)"
  shows "distinct ks \<Longrightarrow> config s = config m \<Longrightarrow>
    states (fold step ks s) k = (if k \<in> set ks then H k (states s k) else states s k)"
proof (induction ks arbitrary: s)
  case Nil
  then show ?case by simp
next
  case (Cons a ks)
  have c: "config (step a s) = config m"
    using Cons.prems(2) by (simp add: step load_key_config split: option.splits)
  have vs: "validate s = validate m"
    by (rule inv) (rule Cons.prems(2))
  have st: "states (step a s) = (states s)(a := H a (states s a))"
  proof (cases "data a")
    case None
    then show ?thesis by (simp add: step H)
  next
    case (Some vals)
    then show ?thesis
      by (simp add: step H load_key_states [OF inv] vs Cons.prems(2))
  qed
  from Cons.prems have d: "distinct ks" and na: "a \<notin> set ks" by simp_all
  have "states (fold step ks (step a s)) k
          = (if k \<in> set ks then H k (states (step a s) k) else states (step a s) k)"
    by (rule Cons.IH [OF d c])
  with na show ?case by (auto simp: st)
qed

lemma loadData_states_fieldwise:
  assumes "\<And>s s'. config s' = config s \<Longrightarrow> validate s' = validate s"
  shows "states (loadData validate m data) key =
     (case data key of
        None \<Rightarrow> states m key
      | Some vals \<Rightarrow>
          \<lparr> baseValue = (if validate m key (baseValue vals)
                         then clamp (baseValue vals) (Some (minValue (config m))) (Some (maxValue (config m)))
                         else baseValue (states m key)),
            equipmentBonus = (if validate m key (equipmentBonus vals) then equipmentBonus vals
                              else equipmentBonus (states m key)),
            effectBonus = (if validate m key (effectBonus vals) then effectBonus vals
                           else effectBonus (states m key)) \<rparr>)"
proof -
  have d: "distinct ATTRIBUTE_KEYS" by (simp add: ATTRIBUTE_KEYS_def)
  from loadData_fold_states [OF assms refl refl d refl, where data = data and m = m and k = key]
  show ?thesis
    by (simp add: loadData_def all_keys)
qed

lemma MyAttributes_config_only:
  "config s' = config s \<Longrightarrow> MyAttributes_validate s' = MyAttributes_validate s"
  by (simp add: fun_eq_iff MyAttributes_validate_def)

lemma scenario_facts:
  "minValue (config (new_AttributeManager scenario_config)) = 0"
  "maxValue (config (new_AttributeManager scenario_config)) = 100"
  "states (new_AttributeManager scenario_config) key =
     \<lparr> baseValue = (if key = Vitality then 10 else 0), equipmentBonus = 0, effectBonus = 0 \<rparr>"
  by (simp_all add: new_config new_states initializeStates_def merge_config_def scenario_config_def)

lemma over_max_facts:
  "minValue (config (new_AttributeManager over_max_config)) = 0"
  "maxValue (config (new_AttributeManager over_max_config)) = 50"
  "states (new_AttributeManager over_max_config) key =
     \<lparr> baseValue = (if key = Vitality then 80 else 0), equipmentBonus = 0, effectBonus = 0 \<rparr>"
  by (simp_all add: new_config new_states initializeStates_def merge_config_def over_max_config_def)

lemma load_key_same:
  assumes "validate m k (baseValue (states m k)) \<longrightarrow>
     clamp (baseValue (states m k)) (Some (minValue (config m))) (Some (maxValue (config m)))
       = baseValue (states m k)"
  shows "load_key validate m k (states m k) = m"
proof -
  have b: "snd (setBase validate m k (baseValue (states m k))) = m"
    using assms by (simp add: setBase_def set_cells_same)
  have e: "snd (setEquipment validate m k (equipmentBonus (states m k))) = m"
    by (simp add: setEquipment_def set_cells_same)
  have f: "snd (setEffect validate m k (effectBonus (states m k))) = m"
    by (simp add: setEffect_def set_cells_same)
  show ?thesis by (simp add: load_key_def Let_def b e f)
qed

lemma fold_fixed: "(\<And>k. k \<in> set ks \<Longrightarrow> f k m = m) \<Longrightarrow> fold f ks m = m"
  by (induction ks) simp_all

lemma inverted_facts:
  "minValue (config (new_AttributeManager inverted_config)) = 10"
  "maxValue (config (new_AttributeManager inverted_config)) = 5"
  "states (new_AttributeManager inverted_config) key =
     \<lparr> baseValue = 0, equipmentBonus = 0, effectBonus = 0 \<rparr>"
  by (simp_all add: new_config new_states initializeStates_def merge_config_def inverted_config_def)

lemma createAttributesState_at:
  "createAttributesState ov key = Some (createAttributeEntry key (override_at ov key))"
  by (cases key) (simp_all add: createAttributesState_def)

lemma createState_at:
  "createState ov key =
     Some \<lparr> meta = CompactAttributeCatalog key,
            values = createValues (override_at ov key),
            totalValue = calculateTotal (createValues (override_at ov key)) \<rparr>"
  by (cases key) (simp_all add: createState_def ATTRIBUTE_KEYS_def Let_def)

lemma five_keys: "{Vitality, Strength, Agility, Intellect, Luck} = (UNIV :: AttributeKey set)"
proof -
  have "k \<in> {Vitality, Strength, Agility, Intellect, Luck}" for k by (cases k) simp_all
  then show ?thesis by blast
qed

lemma read_entry_append: "read_entry s ea = Some e \<Longrightarrow> read_entry (s @ xs) ea = Some e"
  by (auto simp: read_entry_def deref_def nth_append split: if_splits option.splits obj.splits)

lemma read_state_entry_append:
  "read_state_entry s st key = Some e \<Longrightarrow> read_state_entry (s @ xs) st key = Some e"
  by (auto simp: read_state_entry_def deref_def nth_append read_entry_append
           split: if_splits option.splits obj.splits)


section \<open>Teardown\<close>

text \<open>
  C1. After \<^verbatim>\<open>destroy()\<close> no change notification should be delivered any more. The code
  does not achieve this. \<^verbatim>\<open>destroy\<close> empties \<^verbatim>\<open>this.observers\<close> and nothing else: the listeners
  that \<^verbatim>\<open>setupObservers\<close> connected stay connected, since the function that disconnects
  one was dropped when it was connected. On a manager built without an argument and then
  destroyed, \<^verbatim>\<open>setBase("strength", 50)\<close> is accepted and \<^verbatim>\<open>onAttributeChanged("strength", 0, 50)\<close>
  is called; with \<^verbatim>\<open>autoPersist\<close> set, \<^verbatim>\<open>persistState\<close> is called after it.
\<close>

theorem destroy_leaves_listeners_connected:
  "observers (destroy (new_AttributeManager default_config)) = []
   \<and> calls (destroy (new_AttributeManager default_config)) = []
   \<and> fst (setBase SimpleAttributeManager_validate (destroy (new_AttributeManager default_config)) Strength 50)
   \<and> calls (snd (setBase SimpleAttributeManager_validate
                   (destroy (new_AttributeManager default_config)) Strength 50))
       = [onAttributeChanged Strength 0 50]
   \<and> calls (snd (setBase SimpleAttributeManager_validate
                   (destroy (new_AttributeManager persisting_config)) Strength 50))
       = [onAttributeChanged Strength 0 50, persistState]"
proof -
  have A: "calls (snd (setBase SimpleAttributeManager_validate (destroy (new_AttributeManager c)) Strength 50))
       = [onAttributeChanged Strength 0 50] @ (if autoPersist (merge_config c) then [persistState] else [])
     \<and> fst (setBase SimpleAttributeManager_validate (destroy (new_AttributeManager c)) Strength 50)"
    if c: "initialValues_opt c = None" "maxValue_opt c = None" "minValue_opt c = None" for c
  proof -
    let ?m = "destroy (new_AttributeManager c)"
    have cfg: "minValue (config ?m) = 0" "maxValue (config ?m) = 9999"
      "autoPersist (config ?m) = autoPersist (merge_config c)"
      by (simp_all add: destroy_fields new_config merge_config_def c)
    have st: "states ?m Strength = \<lparr> baseValue = 0, equipmentBonus = 0, effectBonus = 0 \<rparr>"
      by (simp add: destroy_fields new_states initializeStates_def merge_config_def c)
    have g0: "getValue ?m Strength = 0"
      by (simp add: getValue_def cfg st clamp_def)
    have l0: "listeners ?m Strength = Some 0"
      using g0 by (simp add: destroy_fields new_listeners getValue_destroy)
    have ok: "SimpleAttributeManager_validate ?m Strength 50"
      by (simp add: SimpleAttributeManager_validate_def cfg)
    have c0: "calls ?m = []"
      by (simp add: destroy_fields new_calls)
    let ?vs = "(states ?m Strength)\<lparr> baseValue := clamp 50 (Some (minValue (config ?m))) (Some (maxValue (config ?m))) \<rparr>"
    have g1: "getValue (?m\<lparr> states := (states ?m)(Strength := ?vs) \<rparr>) Strength = 50"
      by (simp add: getValue_def cfg st clamp_def)
    have "calls (set_cells ?m Strength ?vs)
            = [onAttributeChanged Strength 0 50] @ (if autoPersist (merge_config c) then [persistState] else [])"
      using g1 g0 l0 c0 cfg(3) by (simp add: set_cells_calls)
    with ok show ?thesis by (simp add: setBase_def)
  qed
  from A [of default_config] A [of persisting_config]
  show ?thesis
    by (simp add: destroy_fields new_calls default_config_def persisting_config_def merge_config_def)
qed


section \<open>Snapshot and restore\<close>

text \<open>
  C2 as stated fails. The constructor stores an initial base value as it is, and
  \<^verbatim>\<open>setBase\<close> clamps what it stores. With \<^verbatim>\<open>{ initialValues: { vitality: 80 }, maxValue: 50 }\<close>
  and the README's hook, which accepts 80, the base value of vitality is 80 before
  \<^verbatim>\<open>loadData(exportData())\<close> and 50 after it.
\<close>

theorem roundtrip_changes_unclamped_base:
  "baseValue (states (new_AttributeManager over_max_config) Vitality) = 80
   \<and> baseValue (states (loadData MyAttributes_validate (new_AttributeManager over_max_config)
                           (exportData (new_AttributeManager over_max_config))) Vitality) = 50"
  by (simp add: loadData_states_fieldwise [OF MyAttributes_config_only] exportData_at
        over_max_facts MyAttributes_validate_def clamp_def)

text \<open>
  C2, amended. \<^verbatim>\<open>loadData(exportData())\<close> with the same \<^verbatim>\<open>validate\<close> hook leaves all fifteen
  fields unchanged, provided that every current base value that the hook accepts is
  equal to its own clamp to \<open>[minValue, maxValue]\<close>. The hook may read the manager.
\<close>

theorem loadData_exportData_roundtrip:
  assumes "\<forall>key. validate m key (baseValue (states m key)) \<longrightarrow>
     clamp (baseValue (states m key)) (Some (minValue (config m))) (Some (maxValue (config m)))
       = baseValue (states m key)"
  shows "states (loadData validate m (exportData m)) = states m"
proof -
  have "loadData validate m (exportData m) = m"
    unfolding loadData_def
    by (rule fold_fixed) (simp add: exportData_at load_key_same assms)
  then show ?thesis by simp
qed

text \<open>
  The range check of \<^verbatim>\<open>SimpleAttributeManager\<close> meets the proviso in the configuration of
  the counterexample: it rejects the base value 80, which therefore stays.
\<close>

theorem loadData_exportData_roundtrip_witness:
  "states (loadData SimpleAttributeManager_validate (new_AttributeManager over_max_config)
             (exportData (new_AttributeManager over_max_config)))
       = states (new_AttributeManager over_max_config)
   \<and> baseValue (states (new_AttributeManager over_max_config) Vitality) = 80
   \<and> \<not> SimpleAttributeManager_validate (new_AttributeManager over_max_config) Vitality 80"
proof -
  have h: "\<forall>key. SimpleAttributeManager_validate (new_AttributeManager over_max_config) key
              (baseValue (states (new_AttributeManager over_max_config) key)) \<longrightarrow>
       clamp (baseValue (states (new_AttributeManager over_max_config) key))
         (Some (minValue (config (new_AttributeManager over_max_config))))
         (Some (maxValue (config (new_AttributeManager over_max_config))))
       = baseValue (states (new_AttributeManager over_max_config) key)"
    by (simp add: SimpleAttributeManager_validate_def over_max_facts clamp_def)
  from h loadData_exportData_roundtrip
      [where validate = SimpleAttributeManager_validate and m = "new_AttributeManager over_max_config", OF h]
  show ?thesis
    by (simp add: over_max_facts SimpleAttributeManager_validate_def)
qed


section \<open>Rejected writes\<close>

text \<open>
  C3. When the \<^verbatim>\<open>validate\<close> hook returns false for a key and a value, each of the three
  setters returns false and the manager after the call is the manager before it; no
  branch of a setter raises. With a hook that always returns false,
  \<^verbatim>\<open>setBase("strength", 50)\<close> returns false and \<^verbatim>\<open>getValue("strength")\<close> is unchanged.
\<close>

theorem rejected_write_changes_nothing:
  "(\<not> validate m key v \<longrightarrow>
       setBase validate m key v = (False, m)
     \<and> setEquipment validate m key v = (False, m)
     \<and> setEffect validate m key v = (False, m))
   \<and> fst (setBase reject_all m Strength 50) = False
   \<and> getValue (snd (setBase reject_all m Strength 50)) Strength = getValue m Strength"
  by (simp add: setBase_def setEquipment_def setEffect_def reject_all_def)

text \<open>
  The range check of \<^verbatim>\<open>SimpleAttributeManager\<close> rejects 500 when \<^verbatim>\<open>maxValue\<close> is 100.
\<close>

theorem rejected_write_changes_nothing_witness:
  "\<not> SimpleAttributeManager_validate (new_AttributeManager scenario_config) Vitality 500
   \<and> setEquipment SimpleAttributeManager_validate (new_AttributeManager scenario_config) Vitality 500
       = (False, new_AttributeManager scenario_config)"
  using rejected_write_changes_nothing
    [of SimpleAttributeManager_validate "new_AttributeManager scenario_config" Vitality 500]
  by (simp add: SimpleAttributeManager_validate_def new_config merge_config_def scenario_config_def)


section \<open>Change notification\<close>

text \<open>
  C4. On a manager built with \<^verbatim>\<open>{ initialValues: { vitality: 10 }, minValue: 0, maxValue: 100 }\<close>
  and the range check as its hook, \<^verbatim>\<open>setEquipment("vitality", 5)\<close> is accepted,
  \<^verbatim>\<open>getValue("vitality")\<close> goes from 10 to 15, and the only hook call is
  \<^verbatim>\<open>onAttributeChanged("vitality", 10, 15)\<close>. For every manager, hook, key and value, a
  setter call after which the key's total equals the total before it makes no hook call.
\<close>

theorem setEquipment_scenario_notifies_once:
  "fst (setEquipment SimpleAttributeManager_validate (new_AttributeManager scenario_config) Vitality 5)
   \<and> getValue (new_AttributeManager scenario_config) Vitality = 10
   \<and> calls (new_AttributeManager scenario_config) = []
   \<and> getValue (snd (setEquipment SimpleAttributeManager_validate
                      (new_AttributeManager scenario_config) Vitality 5)) Vitality = 15
   \<and> calls (snd (setEquipment SimpleAttributeManager_validate
                   (new_AttributeManager scenario_config) Vitality 5))
       = [onAttributeChanged Vitality 10 15]
   \<and> (getValue (snd (setBase validate m key v)) key = getValue m key
        \<longrightarrow> calls (snd (setBase validate m key v)) = calls m)
   \<and> (getValue (snd (setEquipment validate m key v)) key = getValue m key
        \<longrightarrow> calls (snd (setEquipment validate m key v)) = calls m)
   \<and> (getValue (snd (setEffect validate m key v)) key = getValue m key
        \<longrightarrow> calls (snd (setEffect validate m key v)) = calls m)"
proof -
  let ?m = "new_AttributeManager scenario_config"
  have cfg: "minValue (config ?m) = 0" "maxValue (config ?m) = 100" "autoPersist (config ?m) = False"
    by (simp_all add: new_config merge_config_def scenario_config_def)
  have st: "states ?m Vitality = \<lparr> baseValue = 10, equipmentBonus = 0, effectBonus = 0 \<rparr>"
    by (simp add: new_states initializeStates_def merge_config_def scenario_config_def)
  have g0: "getValue ?m Vitality = 10"
    by (simp add: getValue_def cfg st clamp_def)
  have ok: "SimpleAttributeManager_validate ?m Vitality 5"
    by (simp add: SimpleAttributeManager_validate_def cfg)
  have l0: "listeners ?m Vitality = Some 10"
    by (simp add: new_listeners g0)
  let ?vs = "(states ?m Vitality)\<lparr> equipmentBonus := 5 \<rparr>"
  have g1': "getValue (?m\<lparr> states := (states ?m)(Vitality := ?vs) \<rparr>) Vitality = 15"
    by (simp add: getValue_def cfg st clamp_def)
  have g1: "getValue (set_cells ?m Vitality ?vs) Vitality = 15"
  proof -
    have "getValue (set_cells ?m Vitality ?vs) Vitality
            = getValue (?m\<lparr> states := (states ?m)(Vitality := ?vs) \<rparr>) Vitality"
      by (rule getValue_cong) (simp_all add: set_cells_config set_cells_states)
    then show ?thesis by (simp only: g1')
  qed
  have c1: "calls (set_cells ?m Vitality ?vs) = [onAttributeChanged Vitality 10 15]"
    by (simp only: set_cells_calls g1' g0 l0 cfg new_calls) simp
  have scen: "fst (setEquipment SimpleAttributeManager_validate ?m Vitality 5)"
    "getValue (snd (setEquipment SimpleAttributeManager_validate ?m Vitality 5)) Vitality = 15"
    "calls (snd (setEquipment SimpleAttributeManager_validate ?m Vitality 5))
       = [onAttributeChanged Vitality 10 15]"
    using ok g1 c1 by (simp_all add: setEquipment_def)
  have quiet:
    "getValue (snd (setBase validate m key v)) key = getValue m key
        \<longrightarrow> calls (snd (setBase validate m key v)) = calls m"
    "getValue (snd (setEquipment validate m key v)) key = getValue m key
        \<longrightarrow> calls (snd (setEquipment validate m key v)) = calls m"
    "getValue (snd (setEffect validate m key v)) key = getValue m key
        \<longrightarrow> calls (snd (setEffect validate m key v)) = calls m"
    by (simp_all add: setBase_def setEquipment_def setEffect_def set_cells_quiet)
  from scen g0 quiet show ?thesis by (simp add: new_calls)
qed

text \<open>
  With a base value of 100 and \<^verbatim>\<open>maxValue\<close> 100, \<^verbatim>\<open>setEquipment("vitality", 5)\<close> is accepted and
  stores 5, the total stays 100, and no hook is called.
\<close>

theorem setEquipment_scenario_notifies_once_witness:
  "fst (setEquipment SimpleAttributeManager_validate (new_AttributeManager capped_config) Vitality 5)
   \<and> equipmentBonus (states (snd (setEquipment SimpleAttributeManager_validate
                      (new_AttributeManager capped_config) Vitality 5)) Vitality) = 5
   \<and> getValue (snd (setEquipment SimpleAttributeManager_validate
                      (new_AttributeManager capped_config) Vitality 5)) Vitality
       = getValue (new_AttributeManager capped_config) Vitality
   \<and> calls (snd (setEquipment SimpleAttributeManager_validate
                   (new_AttributeManager capped_config) Vitality 5))
       = calls (new_AttributeManager capped_config)
   \<and> getValue (snd (setEffect SimpleAttributeManager_validate
                      (new_AttributeManager capped_config) Vitality 5)) Vitality
       = getValue (new_AttributeManager capped_config) Vitality
   \<and> calls (snd (setEffect SimpleAttributeManager_validate
                   (new_AttributeManager capped_config) Vitality 5))
       = calls (new_AttributeManager capped_config)
   \<and> getValue (snd (setBase SimpleAttributeManager_validate
                      (new_AttributeManager capped_config) Vitality 100)) Vitality
       = getValue (new_AttributeManager capped_config) Vitality
   \<and> calls (snd (setBase SimpleAttributeManager_validate
                   (new_AttributeManager capped_config) Vitality 100))
       = calls (new_AttributeManager capped_config)"
proof -
  let ?m = "new_AttributeManager capped_config"
  let ?V = SimpleAttributeManager_validate
  have ok: "?V ?m Vitality 5" "?V ?m Vitality 100"
    by (simp_all add: SimpleAttributeManager_validate_def capped_facts)
  have g: "getValue (snd (setEquipment ?V ?m Vitality 5)) Vitality = getValue ?m Vitality"
    "getValue (snd (setEffect ?V ?m Vitality 5)) Vitality = getValue ?m Vitality"
    "getValue (snd (setBase ?V ?m Vitality 100)) Vitality = getValue ?m Vitality"
    by (simp_all add: getValue_def setter_states setter_config ok capped_facts clamp_def)
  have e: "equipmentBonus (states (snd (setEquipment ?V ?m Vitality 5)) Vitality) = 5"
    by (simp add: setter_states ok)
  have f: "fst (setEquipment ?V ?m Vitality 5)"
    by (simp add: setEquipment_def ok)
  from setEquipment_scenario_notifies_once [where validate = ?V and m = ?m and key = Vitality and v = 5]
    setEquipment_scenario_notifies_once [where validate = ?V and m = ?m and key = Vitality and v = 100]
    g e f
  show ?thesis by simp
qed


section \<open>Loading\<close>

text \<open>
  C5. \<^verbatim>\<open>loadData\<close> applies the three fields of a provided key one after the other, each
  through its own call of the \<^verbatim>\<open>validate\<close> hook: a field is stored exactly when the hook
  accepts it (the base value clamped, as in \<^verbatim>\<open>setBase\<close>), and a rejected field keeps its old
  value whatever happens to the other two; the cells of the other keys are not touched.
  When the verdict of the hook depends on the key, the value and the configuration only,
  the cells after the whole of \<^verbatim>\<open>loadData\<close> are given field by field: a key that the
  argument lacks is unchanged, and each field of a provided key is the loaded value when
  accepted and the old value when rejected.
\<close>

theorem loadData_applies_fields_independently:
  "states (load_key validate m key vals) key =
     \<lparr> baseValue =
         (if validate m key (baseValue vals)
          then clamp (baseValue vals) (Some (minValue (config m))) (Some (maxValue (config m)))
          else baseValue (states m key)),
       equipmentBonus =
         (if validate (snd (setBase validate m key (baseValue vals))) key (equipmentBonus vals)
          then equipmentBonus vals
          else equipmentBonus (states m key)),
       effectBonus =
         (if validate (snd (setEquipment validate (snd (setBase validate m key (baseValue vals)))
                              key (equipmentBonus vals))) key (effectBonus vals)
          then effectBonus vals
          else effectBonus (states m key)) \<rparr>
   \<and> (key' \<noteq> key \<longrightarrow> states (load_key validate m key vals) key' = states m key')
   \<and> ((\<forall>s s'. config s' = config s \<longrightarrow> validate s' = validate s) \<longrightarrow>
        states (loadData validate m data) key =
          (case data key of
             None \<Rightarrow> states m key
           | Some vals \<Rightarrow>
               \<lparr> baseValue =
                   (if validate m key (baseValue vals)
                    then clamp (baseValue vals) (Some (minValue (config m))) (Some (maxValue (config m)))
                    else baseValue (states m key)),
                 equipmentBonus =
                   (if validate m key (equipmentBonus vals) then equipmentBonus vals
                    else equipmentBonus (states m key)),
                 effectBonus =
                   (if validate m key (effectBonus vals) then effectBonus vals
                    else effectBonus (states m key)) \<rparr>))"
proof -
  have one: "states (load_key validate m key vals) key =
     \<lparr> baseValue =
         (if validate m key (baseValue vals)
          then clamp (baseValue vals) (Some (minValue (config m))) (Some (maxValue (config m)))
          else baseValue (states m key)),
       equipmentBonus =
         (if validate (snd (setBase validate m key (baseValue vals))) key (equipmentBonus vals)
          then equipmentBonus vals
          else equipmentBonus (states m key)),
       effectBonus =
         (if validate (snd (setEquipment validate (snd (setBase validate m key (baseValue vals)))
                              key (equipmentBonus vals))) key (effectBonus vals)
          then effectBonus vals
          else effectBonus (states m key)) \<rparr>"
    by (simp add: load_key_def Let_def setter_states)
  have other: "key' \<noteq> key \<longrightarrow> states (load_key validate m key vals) key' = states m key'"
    by (simp add: load_key_def Let_def setter_states)
  have whole: "(\<forall>s s'. config s' = config s \<longrightarrow> validate s' = validate s) \<longrightarrow>
        states (loadData validate m data) key =
          (case data key of
             None \<Rightarrow> states m key
           | Some vals \<Rightarrow>
               \<lparr> baseValue =
                   (if validate m key (baseValue vals)
                    then clamp (baseValue vals) (Some (minValue (config m))) (Some (maxValue (config m)))
                    else baseValue (states m key)),
                 equipmentBonus =
                   (if validate m key (equipmentBonus vals) then equipmentBonus vals
                    else equipmentBonus (states m key)),
                 effectBonus =
                   (if validate m key (effectBonus vals) then effectBonus vals
                    else effectBonus (states m key)) \<rparr>)"
  proof
    assume "\<forall>s s'. config s' = config s \<longrightarrow> validate s' = validate s"
    then have "\<And>s s'. config s' = config s \<Longrightarrow> validate s' = validate s" by blast
    then show "states (loadData validate m data) key =
          (case data key of
             None \<Rightarrow> states m key
           | Some vals \<Rightarrow>
               \<lparr> baseValue =
                   (if validate m key (baseValue vals)
                    then clamp (baseValue vals) (Some (minValue (config m))) (Some (maxValue (config m)))
                    else baseValue (states m key)),
                 equipmentBonus =
                   (if validate m key (equipmentBonus vals) then equipmentBonus vals
                    else equipmentBonus (states m key)),
                 effectBonus =
                   (if validate m key (effectBonus vals) then effectBonus vals
                    else effectBonus (states m key)) \<rparr>)"
      by (rule loadData_states_fieldwise)
  qed
  from one other whole show ?thesis by (intro conjI)
qed

text \<open>
  With \<^verbatim>\<open>maxValue\<close> 100 and the range check: of vitality the base value 50 and the effect
  bonus 7 are stored and the equipment bonus 500 is rejected; of strength the base value
  200 is rejected and the two bonuses are stored; luck is not provided.
\<close>

theorem loadData_applies_fields_independently_witness:
  "states (load_key SimpleAttributeManager_validate (new_AttributeManager scenario_config) Vitality
               \<lparr> baseValue = 50, equipmentBonus = 500, effectBonus = 7 \<rparr>) Strength
       = states (new_AttributeManager scenario_config) Strength
   \<and> states (loadData SimpleAttributeManager_validate (new_AttributeManager scenario_config) example_data) Vitality
       = \<lparr> baseValue = 50, equipmentBonus = 0, effectBonus = 7 \<rparr>
   \<and> states (loadData SimpleAttributeManager_validate (new_AttributeManager scenario_config) example_data) Strength
       = \<lparr> baseValue = 0, equipmentBonus = 3, effectBonus = 4 \<rparr>
   \<and> states (loadData SimpleAttributeManager_validate (new_AttributeManager scenario_config) example_data) Luck
       = \<lparr> baseValue = 0, equipmentBonus = 0, effectBonus = 0 \<rparr>"
proof -
  have inv: "\<forall>s s'. config s' = config s \<longrightarrow>
      SimpleAttributeManager_validate s' = SimpleAttributeManager_validate s"
    by (simp add: fun_eq_iff SimpleAttributeManager_validate_def)
  note T = loadData_applies_fields_independently
      [where validate = SimpleAttributeManager_validate and m = "new_AttributeManager scenario_config"]
  have L: "states (loadData SimpleAttributeManager_validate (new_AttributeManager scenario_config) data) key =
          (case data key of
             None \<Rightarrow> states (new_AttributeManager scenario_config) key
           | Some vals \<Rightarrow>
               \<lparr> baseValue =
                   (if SimpleAttributeManager_validate (new_AttributeManager scenario_config) key (baseValue vals)
                    then clamp (baseValue vals) (Some (minValue (config (new_AttributeManager scenario_config))))
                           (Some (maxValue (config (new_AttributeManager scenario_config))))
                    else baseValue (states (new_AttributeManager scenario_config) key)),
                 equipmentBonus =
                   (if SimpleAttributeManager_validate (new_AttributeManager scenario_config) key (equipmentBonus vals)
                    then equipmentBonus vals
                    else equipmentBonus (states (new_AttributeManager scenario_config) key)),
                 effectBonus =
                   (if SimpleAttributeManager_validate (new_AttributeManager scenario_config) key (effectBonus vals)
                    then effectBonus vals
                    else effectBonus (states (new_AttributeManager scenario_config) key)) \<rparr>)" for data key
    using T [where key = key and data = data] inv by blast
  have O: "states (load_key SimpleAttributeManager_validate (new_AttributeManager scenario_config) Vitality
               \<lparr> baseValue = 50, equipmentBonus = 500, effectBonus = 7 \<rparr>) Strength
       = states (new_AttributeManager scenario_config) Strength"
    using T [where key = Vitality and key' = Strength] by blast
  have v: "example_data Vitality = Some \<lparr> baseValue = 50, equipmentBonus = 500, effectBonus = 7 \<rparr>"
    and s: "example_data Strength = Some \<lparr> baseValue = 200, equipmentBonus = 3, effectBonus = 4 \<rparr>"
    and l: "example_data Luck = None"
    by (simp_all add: example_data_def)
  have a: "states (loadData SimpleAttributeManager_validate (new_AttributeManager scenario_config) example_data) Vitality
       = \<lparr> baseValue = 50, equipmentBonus = 0, effectBonus = 7 \<rparr>"
    by (simp add: L v scenario_facts SimpleAttributeManager_validate_def clamp_def)
  have b: "states (loadData SimpleAttributeManager_validate (new_AttributeManager scenario_config) example_data) Strength
       = \<lparr> baseValue = 0, equipmentBonus = 3, effectBonus = 4 \<rparr>"
    by (simp add: L s scenario_facts SimpleAttributeManager_validate_def clamp_def)
  have c: "states (loadData SimpleAttributeManager_validate (new_AttributeManager scenario_config) example_data) Luck
       = \<lparr> baseValue = 0, equipmentBonus = 0, effectBonus = 0 \<rparr>"
    by (simp add: L l scenario_facts)
  show ?thesis
    by (intro conjI O a b c)
qed


section \<open>Updating an entry\<close>

text \<open>
  C6. When \<^verbatim>\<open>currentState[key]\<close> is an entry, \<^verbatim>\<open>updateAttributeEntry\<close> returns; every object
  of the store before the call is unchanged after it, so every entry of the state reads
  by value as before; the entry returned is at an address that was not allocated before,
  its \<^verbatim>\<open>meta\<close> is the old one, its values are the old values overwritten by the fields
  that \<^verbatim>\<open>newValues\<close> has, and its \<^verbatim>\<open>totalValue\<close> is the sum of those merged fields.
\<close>

theorem updateAttributeEntry_returns_new_entry:
  assumes "read_state_entry s currentState key = Some old"
  shows "\<exists>s' ea. updateAttributeEntry s currentState key newValues = Some (s', ea)
     \<and> take (length s) s' = s
     \<and> (\<forall>k e. read_state_entry s currentState k = Some e \<longrightarrow> read_state_entry s' currentState k = Some e)
     \<and> read_state_entry s' currentState key = Some old
     \<and> length s \<le> ea
     \<and> read_entry s' ea =
         Some \<lparr> meta = meta old,
                values = \<lparr> baseValue = (case baseValue_opt newValues of None \<Rightarrow> baseValue (values old) | Some x \<Rightarrow> x),
                           equipmentBonus = (case equipmentBonus_opt newValues of None \<Rightarrow> equipmentBonus (values old) | Some x \<Rightarrow> x),
                           effectBonus = (case effectBonus_opt newValues of None \<Rightarrow> effectBonus (values old) | Some x \<Rightarrow> x) \<rparr>,
                totalValue =
                    (case baseValue_opt newValues of None \<Rightarrow> baseValue (values old) | Some x \<Rightarrow> x)
                  + (case equipmentBonus_opt newValues of None \<Rightarrow> equipmentBonus (values old) | Some x \<Rightarrow> x)
                  + (case effectBonus_opt newValues of None \<Rightarrow> effectBonus (values old) | Some x \<Rightarrow> x) \<rparr>"
proof -
  let ?uv = "spread_values (values old) (Some newValues)"
  let ?s1 = "s @ [ValuesObj ?uv]"
  let ?s2 = "?s1 @ [EntryObj (meta old) (length s) (calculateTotalAttributeValue ?uv)]"
  have u: "updateAttributeEntry s currentState key newValues = Some (?s2, Suc (length s))"
    by (simp add: updateAttributeEntry_def assms alloc_def Let_def)
  have s2: "?s2 = s @ [ValuesObj ?uv, EntryObj (meta old) (length s) (calculateTotalAttributeValue ?uv)]"
    by simp
  have frame: "take (length s) ?s2 = s" by simp
  have keep: "\<forall>k e. read_state_entry s currentState k = Some e \<longrightarrow> read_state_entry ?s2 currentState k = Some e"
    unfolding s2 by (blast intro: read_state_entry_append)
  have new: "read_entry ?s2 (Suc (length s)) =
      Some \<lparr> meta = meta old, values = ?uv, totalValue = calculateTotalAttributeValue ?uv \<rparr>"
    by (simp add: read_entry_def deref_def nth_append)
  show ?thesis
    apply (rule exI [of _ ?s2], rule exI [of _ "Suc (length s)"])
    using u frame keep new assms
    by (simp add: spread_values_def calculateTotalAttributeValue_def)
qed

text \<open>
  The fourth usage example: \<^verbatim>\<open>updateAttributeEntry(playerState, "strength", { equipmentBonus: 8 })\<close>
  on the default state.
\<close>

theorem updateAttributeEntry_returns_new_entry_witness:
  "read_state_entry example_store 10 Strength
     = Some \<lparr> meta = AttributeCatalog Strength, values = DefaultAttributeValues, totalValue = 14 \<rparr>
   \<and> (\<exists>s' ea. updateAttributeEntry example_store 10 Strength
                 \<lparr> baseValue_opt = None, equipmentBonus_opt = Some 8, effectBonus_opt = None \<rparr> = Some (s', ea)
        \<and> take 11 s' = example_store
        \<and> read_state_entry s' 10 Strength
            = Some \<lparr> meta = AttributeCatalog Strength, values = DefaultAttributeValues, totalValue = 14 \<rparr>
        \<and> 11 \<le> ea
        \<and> read_entry s' ea
            = Some \<lparr> meta = AttributeCatalog Strength,
                     values = \<lparr> baseValue = 10, equipmentBonus = 8, effectBonus = 2 \<rparr>,
                     totalValue = 20 \<rparr>)"
proof -
  have r: "read_state_entry example_store 10 Strength
     = Some \<lparr> meta = AttributeCatalog Strength, values = DefaultAttributeValues, totalValue = 14 \<rparr>"
    by (simp add: read_state_entry_def read_entry_def deref_def example_store_def)
  have len: "length example_store = 11" by (simp add: example_store_def)
  from updateAttributeEntry_returns_new_entry [OF r,
     where newValues = "\<lparr> baseValue_opt = None, equipmentBonus_opt = Some 8, effectBonus_opt = None \<rparr>"]
  obtain s' ea where
    "updateAttributeEntry example_store 10 Strength
                 \<lparr> baseValue_opt = None, equipmentBonus_opt = Some 8, effectBonus_opt = None \<rparr> = Some (s', ea)"
    "take 11 s' = example_store"
    "read_state_entry s' 10 Strength
            = Some \<lparr> meta = AttributeCatalog Strength, values = DefaultAttributeValues, totalValue = 14 \<rparr>"
    "11 \<le> ea"
    "read_entry s' ea
            = Some \<lparr> meta = AttributeCatalog Strength,
                     values = \<lparr> baseValue = 10, equipmentBonus = 8, effectBonus = 2 \<rparr>,
                     totalValue = 20 \<rparr>"
    by (auto simp: len DefaultAttributeValues_def)
  with r show ?thesis by blast
qed


section \<open>Building a state\<close>

text \<open>
  C7. For every overrides argument, absent or partial, \<^verbatim>\<open>createAttributesState\<close> and
  \<^verbatim>\<open>createState\<close> return a mapping whose keys are exactly the five canonical keys, and the
  \<^verbatim>\<open>totalValue\<close> of each entry is the sum of the three fields of its own values. The result
  is a function of the overrides alone.
\<close>

theorem createState_five_keys_with_totals:
  "dom (createAttributesState ov) = {Vitality, Strength, Agility, Intellect, Luck}
   \<and> (\<forall>key e. createAttributesState ov key = Some e \<longrightarrow>
         totalValue e = baseValue (values e) + equipmentBonus (values e) + effectBonus (values e))
   \<and> dom (createState ov) = {Vitality, Strength, Agility, Intellect, Luck}
   \<and> (\<forall>key e. createState ov key = Some e \<longrightarrow>
         totalValue e = baseValue (values e) + equipmentBonus (values e) + effectBonus (values e))
   \<and> (ov' = ov \<longrightarrow> createAttributesState ov' = createAttributesState ov
                    \<and> createState ov' = createState ov)"
proof -
  have d1: "dom (createAttributesState ov) = {Vitality, Strength, Agility, Intellect, Luck}"
    unfolding five_keys by (auto simp: createAttributesState_at)
  have d2: "dom (createState ov) = {Vitality, Strength, Agility, Intellect, Luck}"
    unfolding five_keys by (auto simp: createState_at)
  have t1: "\<forall>key e. createAttributesState ov key = Some e \<longrightarrow>
         totalValue e = baseValue (values e) + equipmentBonus (values e) + effectBonus (values e)"
    by (auto simp: createAttributesState_at createAttributeEntry_def Let_def calculateTotalAttributeValue_def)
  have t2: "\<forall>key e. createState ov key = Some e \<longrightarrow>
         totalValue e = baseValue (values e) + equipmentBonus (values e) + effectBonus (values e)"
    by (auto simp: createState_at calculateTotal_def)
  show ?thesis using d1 d2 t1 t2 by blast
qed

text \<open>
  The overrides of the third usage example, and no overrides.
\<close>

theorem createState_five_keys_with_totals_witness:
  "(\<exists>e. createAttributesState (Some example_overrides) Strength = Some e
        \<and> values e = \<lparr> baseValue = 15, equipmentBonus = 5, effectBonus = 2 \<rparr>
        \<and> totalValue e = 22)
   \<and> (\<exists>e. createState (Some example_overrides) Luck = Some e
        \<and> values e = \<lparr> baseValue = 8, equipmentBonus = 0, effectBonus = 3 \<rparr>
        \<and> totalValue e = 11)
   \<and> (\<exists>e. createAttributesState None Agility = Some e \<and> totalValue e = 14)"
proof -
  note T = createState_five_keys_with_totals
  have a: "values (createAttributeEntry Strength (override_at (Some example_overrides) Strength))
             = \<lparr> baseValue = 15, equipmentBonus = 5, effectBonus = 2 \<rparr>"
    by (simp add: createAttributeEntry_def createAttributeValues_def spread_values_def
          override_at_def example_overrides_def DefaultAttributeValues_def Let_def)
  have b: "createValues (override_at (Some example_overrides) Luck)
             = \<lparr> baseValue = 8, equipmentBonus = 0, effectBonus = 3 \<rparr>"
    by (simp add: createValues_def spread_values_def override_at_def example_overrides_def)
  have c: "values (createAttributeEntry Agility (override_at None Agility)) = DefaultAttributeValues"
    by (simp add: createAttributeEntry_def createAttributeValues_def spread_values_def
          override_at_def Let_def)
  have t1: "createAttributesState ov key = Some e \<Longrightarrow>
      totalValue e = baseValue (values e) + equipmentBonus (values e) + effectBonus (values e)"
    and t2: "createState ov key = Some e \<Longrightarrow>
      totalValue e = baseValue (values e) + equipmentBonus (values e) + effectBonus (values e)"
    for ov key e
    using T [of ov] by blast+
  have 1: "\<exists>e. createAttributesState (Some example_overrides) Strength = Some e
        \<and> values e = \<lparr> baseValue = 15, equipmentBonus = 5, effectBonus = 2 \<rparr>
        \<and> totalValue e = 22"
    using t1 [of "Some example_overrides" Strength "createAttributeEntry Strength (override_at (Some example_overrides) Strength)"] a
    by (simp add: createAttributesState_at)
  have 2: "\<exists>e. createState (Some example_overrides) Luck = Some e
        \<and> values e = \<lparr> baseValue = 8, equipmentBonus = 0, effectBonus = 3 \<rparr>
        \<and> totalValue e = 11"
    using t2 [of "Some example_overrides" Luck "\<lparr> meta = CompactAttributeCatalog Luck,
            values = createValues (override_at (Some example_overrides) Luck),
            totalValue = calculateTotal (createValues (override_at (Some example_overrides) Luck)) \<rparr>"] b
    by (simp add: createState_at)
  have 3: "\<exists>e. createAttributesState None Agility = Some e \<and> totalValue e = 14"
    using t1 [of None Agility "createAttributeEntry Agility (override_at None Agility)"] c
    by (simp add: createAttributesState_at DefaultAttributeValues_def)
  from 1 2 3 show ?thesis by blast
qed


section \<open>Clamping\<close>

text \<open>
  C8. For all numbers \<open>x\<close>, \<open>lo\<close>, \<open>hi\<close> with \<open>lo \<le> hi\<close>, both clamp utilities are
  idempotent and return a value in \<open>[lo, hi]\<close>; \<^verbatim>\<open>clampAttributeValue(1050, 0, 999)\<close> is
  999 and \<^verbatim>\<open>clampAttributeValue(-5, 0, 999)\<close> is 0.
\<close>

theorem clamp_idempotent_in_range:
  "lo \<le> hi \<Longrightarrow>
     clampAttributeValue (clampAttributeValue x (Some lo) (Some hi)) (Some lo) (Some hi)
       = clampAttributeValue x (Some lo) (Some hi)
   \<and> lo \<le> clampAttributeValue x (Some lo) (Some hi)
   \<and> clampAttributeValue x (Some lo) (Some hi) \<le> hi
   \<and> clamp (clamp x (Some lo) (Some hi)) (Some lo) (Some hi) = clamp x (Some lo) (Some hi)
   \<and> lo \<le> clamp x (Some lo) (Some hi)
   \<and> clamp x (Some lo) (Some hi) \<le> hi
   \<and> clampAttributeValue 1050 (Some 0) (Some 999) = 999
   \<and> clampAttributeValue (- 5) (Some 0) (Some 999) = 0"
  by (simp add: clampAttributeValue_def clamp_def)

theorem clamp_idempotent_in_range_witness:
  "(0::int) \<le> 999
   \<and> clampAttributeValue (clampAttributeValue 1050 (Some 0) (Some 999)) (Some 0) (Some 999) = 999
   \<and> clamp (clamp (- 5) (Some 0) (Some 999)) (Some 0) (Some 999) = 0"
proof -
  have le: "(0::int) \<le> 999" by simp
  from clamp_idempotent_in_range [OF le, of 1050] clamp_idempotent_in_range [OF le, of "- 5"]
  show ?thesis by (simp add: clampAttributeValue_def clamp_def)
qed


section \<open>What the setters store\<close>

text \<open>
  C9 as stated fails in its last part. With \<^verbatim>\<open>{ minValue: 10, maxValue: 5 }\<close> and the
  README's hook, \<^verbatim>\<open>setBase("strength", 7)\<close> is accepted and stores \<open>clamp 7 10 5 = 10\<close>,
  which is above \<^verbatim>\<open>maxValue\<close>.
\<close>

theorem accepted_base_outside_inverted_range:
  "fst (setBase MyAttributes_validate (new_AttributeManager inverted_config) Strength 7)
   \<and> baseValue (states (snd (setBase MyAttributes_validate
                                 (new_AttributeManager inverted_config) Strength 7)) Strength) = 10
   \<and> maxValue (config (snd (setBase MyAttributes_validate
                                 (new_AttributeManager inverted_config) Strength 7))) = 5"
  by (simp add: setBase_def set_cells_states set_cells_config inverted_facts MyAttributes_validate_def clamp_def)

text \<open>
  C9, amended. When validation passes, \<^verbatim>\<open>setBase\<close> stores \<open>clamp value minValue maxValue\<close>
  in the base cell, and \<^verbatim>\<open>setEquipment\<close> and \<^verbatim>\<open>setEffect\<close> store the value as given. An
  accepted base value is in \<open>[minValue, maxValue]\<close> whenever \<open>minValue \<le> maxValue\<close>, while
  the equipment and effect cells can hold an accepted value outside the range: with
  \<^verbatim>\<open>maxValue\<close> 50 and the README's hook, both hold 80 after the call.
\<close>

theorem setBase_clamps_other_setters_do_not:
  "(validate m key v \<longrightarrow>
        baseValue (states (snd (setBase validate m key v)) key)
          = clamp v (Some (minValue (config m))) (Some (maxValue (config m)))
      \<and> equipmentBonus (states (snd (setEquipment validate m key v)) key) = v
      \<and> effectBonus (states (snd (setEffect validate m key v)) key) = v
      \<and> (minValue (config m) \<le> maxValue (config m) \<longrightarrow>
            minValue (config m) \<le> baseValue (states (snd (setBase validate m key v)) key)
          \<and> baseValue (states (snd (setBase validate m key v)) key) \<le> maxValue (config m)))
   \<and> fst (setEquipment MyAttributes_validate (new_AttributeManager over_max_config) Strength 80)
   \<and> equipmentBonus (states (snd (setEquipment MyAttributes_validate
                                      (new_AttributeManager over_max_config) Strength 80)) Strength) = 80
   \<and> fst (setEffect MyAttributes_validate (new_AttributeManager over_max_config) Strength 80)
   \<and> effectBonus (states (snd (setEffect MyAttributes_validate
                                   (new_AttributeManager over_max_config) Strength 80)) Strength) = 80
   \<and> maxValue (config (new_AttributeManager over_max_config)) = 50"
proof -
  have gen: "validate m key v \<longrightarrow>
        baseValue (states (snd (setBase validate m key v)) key)
          = clamp v (Some (minValue (config m))) (Some (maxValue (config m)))
      \<and> equipmentBonus (states (snd (setEquipment validate m key v)) key) = v
      \<and> effectBonus (states (snd (setEffect validate m key v)) key) = v
      \<and> (minValue (config m) \<le> maxValue (config m) \<longrightarrow>
            minValue (config m) \<le> baseValue (states (snd (setBase validate m key v)) key)
          \<and> baseValue (states (snd (setBase validate m key v)) key) \<le> maxValue (config m))"
    by (simp add: setter_states clamp_def)
  have ok: "MyAttributes_validate (new_AttributeManager over_max_config) Strength 80"
    by (simp add: MyAttributes_validate_def)
  have inst: "fst (setEquipment MyAttributes_validate (new_AttributeManager over_max_config) Strength 80)"
    "equipmentBonus (states (snd (setEquipment MyAttributes_validate
        (new_AttributeManager over_max_config) Strength 80)) Strength) = 80"
    "fst (setEffect MyAttributes_validate (new_AttributeManager over_max_config) Strength 80)"
    "effectBonus (states (snd (setEffect MyAttributes_validate
        (new_AttributeManager over_max_config) Strength 80)) Strength) = 80"
    using ok by (simp_all add: set_cells_states setEquipment_def setEffect_def)
  show ?thesis
    by (intro conjI gen inst over_max_facts(2))
qed

text \<open>
  The same call on the base cell stores 50.
\<close>

theorem setBase_clamps_other_setters_do_not_witness:
  "MyAttributes_validate (new_AttributeManager over_max_config) Strength 80
   \<and> minValue (config (new_AttributeManager over_max_config))
       \<le> maxValue (config (new_AttributeManager over_max_config))
   \<and> baseValue (states (snd (setBase MyAttributes_validate
                                 (new_AttributeManager over_max_config) Strength 80)) Strength) = 50
   \<and> equipmentBonus (states (snd (setEquipment MyAttributes_validate
                                      (new_AttributeManager over_max_config) Strength 80)) Strength) = 80
   \<and> effectBonus (states (snd (setEffect MyAttributes_validate
                                   (new_AttributeManager over_max_config) Strength 80)) Strength) = 80"
proof -
  have ok: "MyAttributes_validate (new_AttributeManager over_max_config) Strength 80"
    by (simp add: MyAttributes_validate_def)
  have le: "minValue (config (new_AttributeManager over_max_config))
       \<le> maxValue (config (new_AttributeManager over_max_config))"
    by (simp add: over_max_facts)
  from ok le setBase_clamps_other_setters_do_not
    [where validate = MyAttributes_validate and m = "new_AttributeManager over_max_config"
       and key = Strength and v = 80]
  show ?thesis by (simp add: over_max_facts clamp_def)
qed


section \<open>What the constructor stores\<close>

text \<open>
  C10. The constructor takes no hook and calls none; the base cell of each key holds the
  configured initial value as given (0 when none is configured), not clamped. With
  \<^verbatim>\<open>{ initialValues: { vitality: 80 }, maxValue: 50 }\<close> the new manager holds the base value
  80, which \<^verbatim>\<open>setBase\<close> with the range check rejects and \<^verbatim>\<open>setBase\<close> with the README's hook
  stores as 50.
\<close>

theorem constructor_stores_initial_values_unchecked:
  "baseValue (states (new_AttributeManager c) key)
     = (case initialValues (merge_config c) key of None \<Rightarrow> 0 | Some v \<Rightarrow> v)
   \<and> equipmentBonus (states (new_AttributeManager c) key) = 0
   \<and> effectBonus (states (new_AttributeManager c) key) = 0
   \<and> calls (new_AttributeManager c) = []
   \<and> baseValue (states (new_AttributeManager over_max_config) Vitality) = 80
   \<and> maxValue (config (new_AttributeManager over_max_config)) = 50
   \<and> setBase SimpleAttributeManager_validate (new_AttributeManager over_max_config) Vitality 80
       = (False, new_AttributeManager over_max_config)
   \<and> fst (setBase MyAttributes_validate (new_AttributeManager over_max_config) Vitality 80)
   \<and> baseValue (states (snd (setBase MyAttributes_validate
                                 (new_AttributeManager over_max_config) Vitality 80)) Vitality) = 50"
proof -
  have gen: "baseValue (states (new_AttributeManager c) key)
     = (case initialValues (merge_config c) key of None \<Rightarrow> 0 | Some v \<Rightarrow> v)"
    "equipmentBonus (states (new_AttributeManager c) key) = 0"
    "effectBonus (states (new_AttributeManager c) key) = 0"
    by (simp_all add: new_states initializeStates_def)
  have rej: "setBase SimpleAttributeManager_validate (new_AttributeManager over_max_config) Vitality 80
       = (False, new_AttributeManager over_max_config)"
    by (simp add: setBase_def SimpleAttributeManager_validate_def over_max_facts)
  have acc: "fst (setBase MyAttributes_validate (new_AttributeManager over_max_config) Vitality 80)"
    "baseValue (states (snd (setBase MyAttributes_validate
        (new_AttributeManager over_max_config) Vitality 80)) Vitality) = 50"
    by (simp_all add: setBase_def set_cells_states MyAttributes_validate_def over_max_facts clamp_def)
  have b: "baseValue (states (new_AttributeManager over_max_config) Vitality) = 80"
    by (simp add: over_max_facts)
  show ?thesis
    by (intro conjI gen new_calls b over_max_facts(2) rej acc)
qed

text \<open>
  An initial value inside the range is stored as well, and a key without one starts at 0.
\<close>

theorem constructor_stores_initial_values_unchecked_witness:
  "baseValue (states (new_AttributeManager capped_config) Vitality) = 100
   \<and> baseValue (states (new_AttributeManager capped_config) Luck) = 0
   \<and> calls (new_AttributeManager capped_config) = []"
  using constructor_stores_initial_values_unchecked [where c = capped_config and key = Vitality]
    constructor_stores_initial_values_unchecked [where c = capped_config and key = Luck]
  by (simp add: merge_config_def capped_config_def)

end
